theory Spec2Isabelle
  imports Main "HOL-Library.Sublist" "HOL-Library.Multiset"
begin

section \<open>The remote entities and the libraries the client calls\<close>

text \<open>
  The client (package \<open>main\<close>, and \<open>Logs.Exec\<close> of package \<open>commands\<close>) is glue over
  the Jenkins SDK, \<open>regexp\<close>, \<open>strings\<close>, \<open>fmt\<close>, \<open>sync\<close> and a browser launcher.
  The SDK's entities are records of what their accessor methods return. A Go result
  pair \<open>(v, err)\<close> is a sum: \<open>Inl e\<close> when \<open>err != nil\<close>, \<open>Inr v\<close> otherwise. An \<open>error\<close>
  is the text \<open>%v\<close> prints for it.
\<close>

type_synonym error = string

record InnerJob =
  Name :: string
  Url :: string

record Build =
  GetResult :: string
  GetUrl :: string
  GetConsoleOutput :: string

record Job =
  GetLastBuild :: "error + Build"

text \<open>
  The server as the SDK shows it. A node handle has type \<open>'n\<close>, and the last three fields
  are the methods of a node: \<open>Poll\<close> refreshes the handle's data from the server and
  returns the refreshed handle with the call's result, \<open>IsOnline\<close> reads the handle.
\<close>

record 'n Jenkins =
  GetJob :: "string \<Rightarrow> error + Job"
  GetAllJobNames :: "error + InnerJob list"
  GetAllNodes :: "error + 'n list"
  Poll :: "'n \<Rightarrow> 'n \<times> (error + int)"
  IsOnline :: "'n \<Rightarrow> 'n \<times> (error + bool)"
  GetName :: "'n \<Rightarrow> string"

text \<open>
  The three markers of a status line. The main package renders them with the colour
  library (\<open>green("\<dots>")\<close>, \<open>red("\<dots>")\<close>, \<open>yellow("?")\<close>), \<open>Logs.Exec\<close> with the package
  constants \<open>Good\<close>, \<open>Bad\<close> and \<open>Unknown\<close>; the rendering is the parameter \<open>markerText\<close>.
\<close>

datatype StatusMarker = Ok | Failed | Unknown

text \<open>
  What the program takes from the Go libraries and cannot compute itself:
  \<^item> \<open>Compile\<close>: \<open>regexp.Compile\<close>; a compiled expression is represented by its
    \<open>MatchString\<close> method, the test whether a string contains a match;
  \<^item> \<open>Printf0\<close>: the text \<open>fmt.Printf(format)\<close> writes when it is given a format and no
    operand;
  \<^item> \<open>markerText\<close>: the rendering of a marker.
  Constant formats with \<open>%v\<close> and string operands are written out as concatenations.
\<close>

record Lib =
  Compile :: "string \<Rightarrow> error + (string \<Rightarrow> bool)"
  Printf0 :: "string \<Rightarrow> string"
  markerText :: "StatusMarker \<Rightarrow> string"

definition newline :: string where
  "newline = [CHR 0x0A]"

section \<open>\<open>strings.Index\<close>, \<open>strings.Contains\<close>, \<open>strings.Split\<close>\<close>

text \<open>\<open>Index s sep\<close> is the position of the first occurrence of \<open>sep\<close> in \<open>s\<close>; Go's \<open>-1\<close> is \<open>None\<close>.\<close>

fun Index :: "string \<Rightarrow> string \<Rightarrow> nat option" where
  "Index [] sep = (if sep = [] then Some 0 else None)"
| "Index (c # cs) sep =
     (if prefix sep (c # cs) then Some 0 else map_option Suc (Index cs sep))"

definition Contains :: "string \<Rightarrow> string \<Rightarrow> bool" where
  "Contains s substr = (Index s substr \<noteq> None)"

text \<open>
  \<open>strings.Split(s, sep)\<close>: cut \<open>s\<close> at each occurrence of \<open>sep\<close>, found from the left by
  \<open>Index\<close>, the search resuming after the occurrence. The program calls it with the
  ten-hyphen literal only. With an empty separator Go cuts after each UTF-8 sequence;
  that branch is written here for one-byte characters.
\<close>

function Split :: "string \<Rightarrow> string \<Rightarrow> string list" where
  "Split s sep =
     (if sep = [] then map (\<lambda>c. [c]) s
      else case Index s sep of
             None \<Rightarrow> [s]
           | Some m \<Rightarrow> take m s # Split (drop (m + length sep) s) sep)"
  by pat_completeness auto
termination
proof (relation "measure (\<lambda>(s, sep). length s)")
  show "wf (measure (\<lambda>(s, sep). length s))" by simp
next
  fix s sep :: string and m :: nat
  assume sep: "sep \<noteq> []" and found: "Index s sep = Some m"
  have bound: "Index t sep = Some k \<Longrightarrow> k + length sep \<le> length t" for t k
  proof (induction t arbitrary: k)
    case Nil
    then show ?case by (simp split: if_splits)
  next
    case (Cons c cs)
    show ?case
    proof (cases "prefix sep (c # cs)")
      case True
      with Cons.prems have "k = 0" by simp
      moreover from True have "length sep \<le> length (c # cs)" by (rule prefix_length_le)
      ultimately show ?thesis by simp
    next
      case False
      with Cons.prems obtain j where "Index cs sep = Some j" and "k = Suc j" by auto
      with Cons.IH show ?thesis by fastforce
    qed
  qed
  from bound [OF found] sep
  show "((drop (m + length sep) s, sep), (s, sep)) \<in> measure (\<lambda>(s, sep). length s)"
    by (cases sep) simp_all
qed

declare Split.simps [simp del]

section \<open>The salt filter\<close>

definition getFailedSaltStates :: "string \<Rightarrow> string list" where
  "getFailedSaltStates output =
     foldl (\<lambda>failedStates state.
              if Contains state ''Result: False'' then failedStates @ [state]
              else failedStates)
       [] (Split output ''----------'')"

section \<open>Standard output, the wait group, and how a command ends\<close>

text \<open>
  Standard output is the list of writes, one per \<open>Printf\<close> or \<open>Println\<close> call. \<open>counter\<close> is
  the wait group's counter: \<open>Add n\<close> adds \<open>n\<close>, \<open>Done\<close> subtracts one, and \<open>Wait\<close> returns
  only when it is zero. (Go's \<open>Done\<close> panics when the counter would fall below zero. The
  two commands add the number of goroutines before they start them and each goroutine
  calls \<open>Done\<close> once, so the counter falls from that number to zero: \<open>goEach_effect\<close>.)
\<close>

record Shared =
  counter :: int
  stdout :: "string list"

definition Add :: "nat \<Rightarrow> Shared \<Rightarrow> Shared" where
  "Add n s = s\<lparr>counter := counter s + int n\<rparr>"

definition Done :: "Shared \<Rightarrow> Shared" where
  "Done s = s\<lparr>counter := counter s - 1\<rparr>"

definition print :: "string \<Rightarrow> Shared \<Rightarrow> Shared" where
  "print line s = s\<lparr>stdout := stdout s @ [line]\<rparr>"

text \<open>
  A command returns its \<open>error\<close> result (\<open>None\<close> is \<open>nil\<close>), ends the process in
  \<open>log.Fatalf\<close>, or panics on a nil pointer.
\<close>

datatype Outcome = Returned "error option" | Fatal string | NilDereference

section \<open>\<open>findMatchingJobs\<close>\<close>

text \<open>\<open>regexp.MatchString\<close>: compile, and on a compile error report no match and the error.\<close>

definition MatchString :: "Lib \<Rightarrow> string \<Rightarrow> string \<Rightarrow> bool \<times> error option" where
  "MatchString lib pattern s =
     (case Compile lib pattern of
        Inl e \<Rightarrow> (False, Some e)
      | Inr re \<Rightarrow> (re s, None))"

definition findMatchingJobs :: "Lib \<Rightarrow> 'n Jenkins \<Rightarrow> string \<Rightarrow> error + InnerJob list" where
  "findMatchingJobs lib jenkins regex =
     (case GetAllJobNames jenkins of
        Inl err \<Rightarrow> Inl err
      | Inr jobs \<Rightarrow>
          Inr (foldl (\<lambda>matchingJobs job.
                        case MatchString lib regex (Name job) of
                          (match, _) \<Rightarrow>
                            if match then matchingJobs @ [job] else matchingJobs)
                 [] jobs))"

section \<open>The status line\<close>

definition marker_of :: "string \<Rightarrow> StatusMarker" where
  "marker_of result =
     (if result = ''SUCCESS'' then Ok
      else if result = ''FAILURE'' then Failed
      else Unknown)"

text \<open>\<open>result\<close> of \<open>printStatus\<close> and \<open>logsExec\<close>, from what \<open>GetLastBuild\<close> returned.\<close>

definition result_of :: "error + Build \<Rightarrow> string" where
  "result_of r =
     (case r of
        Inl err \<Rightarrow> ''UNKNOWN ('' @ err @ '')''
      | Inr lastBuild \<Rightarrow> GetResult lastBuild)"

text \<open>
  \<open>printStatus\<close> runs as a goroutine: it has the shared state, and \<open>defer waitGroup.Done()\<close>
  runs on each of its two ways out.
\<close>

definition printStatus ::
  "Lib \<Rightarrow> 'n Jenkins \<Rightarrow> InnerJob \<Rightarrow> Shared \<Rightarrow> error option \<times> Shared" where
  "printStatus lib jenkins job s =
     (case GetJob jenkins (Name job) of
        Inl err \<Rightarrow> (Some err, Done s)
      | Inr build \<Rightarrow>
          let result = result_of (GetLastBuild build);
              marker = markerText lib (marker_of result)
          in (None,
              Done (print (marker @ '' '' @ Name job @ '' ('' @ Url job @ '')'' @ newline) s)))"

section \<open>\<open>logsExec\<close>\<close>

text \<open>
  \<open>lastBuild\<close> is a pointer, nil when \<open>GetLastBuild\<close> failed. Its first use after the
  marker is chosen is \<open>lastBuild.GetUrl()\<close>, an operand of the first \<open>Printf\<close>, so a nil
  \<open>lastBuild\<close> panics before anything is written.
\<close>

definition logsExec :: "Lib \<Rightarrow> 'n Jenkins \<Rightarrow> string \<Rightarrow> bool \<Rightarrow> Outcome \<times> string list" where
  "logsExec lib jenkins jobName salt =
     (case GetJob jenkins jobName of
        Inl err \<Rightarrow> (Returned (Some err), [])
      | Inr build \<Rightarrow>
          let r = GetLastBuild build;
              lastBuild = (case r of Inl _ \<Rightarrow> None | Inr b \<Rightarrow> Some b);
              result = result_of r;
              marker = markerText lib (marker_of result)
          in (case lastBuild of
               None \<Rightarrow> (NilDereference, [])
             | Some b \<Rightarrow>
                 let statusLine = marker @ '' '' @ jobName @ '' ('' @ GetUrl b @ '')'' @ newline;
                     resultLine = ''Jenkins result code: '' @ result @ newline;
                     consoleOutput = GetConsoleOutput b;
                     console =
                       (if salt
                        then map (\<lambda>stateOutput. stateOutput @ newline)
                               (getFailedSaltStates consoleOutput)
                        else [Printf0 lib consoleOutput]);
                     pointer = GetUrl b @ ''/consoleText'' @ newline
                 in (Returned None, statusLine # resultLine # console @ [pointer])))"

section \<open>\<open>printNodeStatus\<close>\<close>

definition printNodeStatus :: "'n Jenkins \<Rightarrow> 'n \<Rightarrow> Shared \<Rightarrow> error option \<times> Shared" where
  "printNodeStatus jenkins node s =
     (case Poll jenkins node of
        (polled, _) \<Rightarrow>
          (case IsOnline jenkins polled of
             (node', Inl err) \<Rightarrow> (Some err, Done s)
           | (node', Inr online) \<Rightarrow>
               (None,
                Done (print (GetName jenkins node'
                             @ (if online then '': Online'' else '': Offline'')
                             @ newline) s))))"

section \<open>Goroutines\<close>

text \<open>
  \<open>go f(x)\<close> for each \<open>x\<close> of a list starts one goroutine per item and drops what \<open>f\<close>
  returns. Each of the goroutines here writes at most once, when it ends, so a run is an
  order in which they end. The schedule picks the next one to end among those still
  running: its head, modulo their number (the first of them when it is exhausted).
\<close>

function goEach ::
  "('a \<Rightarrow> Shared \<Rightarrow> error option \<times> Shared) \<Rightarrow> 'a list \<Rightarrow> nat list \<Rightarrow> Shared \<Rightarrow> Shared" where
  "goEach f running schedule s =
     (if running = [] then s
      else let k = (case schedule of [] \<Rightarrow> 0 | c # _ \<Rightarrow> c mod length running)
           in goEach f (take k running @ drop (Suc k) running) (tl schedule)
                (snd (f (running ! k) s)))"
  by pat_completeness auto
termination
proof (relation "measure (\<lambda>(f, running, schedule, s). length running)")
  show "wf (measure (\<lambda>(f, running, schedule, s). length running))" by simp
next
  fix f :: "'a \<Rightarrow> Shared \<Rightarrow> error option \<times> Shared"
    and running :: "'a list" and schedule :: "nat list" and s :: Shared and k :: nat
  assume "running \<noteq> []"
    and "k = (case schedule of [] \<Rightarrow> 0 | c # _ \<Rightarrow> c mod length running)"
  then have "k < length running" by (simp split: list.splits)
  then show "((f, take k running @ drop (Suc k) running, tl schedule, snd (f (running ! k) s)),
              (f, running, schedule, s))
             \<in> measure (\<lambda>(f, running, schedule, s). length running)"
    by simp
qed

declare goEach.simps [simp del]

text \<open>\<open>defer waitGroup.Wait()\<close>: the command returns if the counter is zero, and never otherwise.\<close>

definition Wait :: "Shared \<Rightarrow> Shared option" where
  "Wait s = (if counter s = 0 then Some s else None)"

definition start :: Shared where
  "start = \<lparr>counter = 0, stdout = []\<rparr>"

section \<open>The fan-out commands\<close>

definition statusExec ::
  "Lib \<Rightarrow> 'n Jenkins \<Rightarrow> string \<Rightarrow> nat list \<Rightarrow> (Outcome \<times> Shared) option" where
  "statusExec lib jenkins regex schedule =
     (case findMatchingJobs lib jenkins regex of
        Inl err \<Rightarrow> Some (Returned (Some err), start)
      | Inr jobs \<Rightarrow>
          map_option (Pair (Returned None))
            (Wait (goEach (printStatus lib jenkins) jobs schedule (Add (length jobs) start))))"

definition nodes :: "'n Jenkins \<Rightarrow> nat list \<Rightarrow> (Outcome \<times> Shared) option" where
  "nodes jenkins schedule =
     (case GetAllNodes jenkins of
        Inl err \<Rightarrow> Some (Returned (Some err), start)
      | Inr nodes \<Rightarrow>
          map_option (Pair (Returned None))
            (Wait (goEach (printNodeStatus jenkins) nodes schedule (Add (length nodes) start))))"

section \<open>\<open>openExec\<close>\<close>

text \<open>
  The second component is the list of URLs handed to \<open>open.Run\<close>, in call order; what
  \<open>open.Run\<close> returns is dropped.
\<close>

definition tooManyJobs :: string where
  "tooManyJobs = ''More than three jobs match your criteria. This is probably not what you expected. Please narrow down your search''"

definition openExec :: "Lib \<Rightarrow> 'n Jenkins \<Rightarrow> string \<Rightarrow> Outcome \<times> string list" where
  "openExec lib jenkins regex =
     (case findMatchingJobs lib jenkins regex of
        Inl err \<Rightarrow> (Returned (Some err), [])
      | Inr jobs \<Rightarrow>
          if length jobs > 3 then (Fatal tooManyJobs, [])
          else (Returned None, foldl (\<lambda>opened job. opened @ [Url job]) [] jobs))"

section \<open>\<open>Logs.Exec\<close> of package \<open>commands\<close>\<close>

text \<open>The same body as \<open>logsExec\<close>, over the fields of the receiver.\<close>

record 'n Logs =
  jenkins :: "'n Jenkins"
  jobName :: string
  salt :: bool

definition NewLogs :: "'n Jenkins \<Rightarrow> string \<Rightarrow> bool \<Rightarrow> 'n Logs" where
  "NewLogs jk name flag = \<lparr>jenkins = jk, jobName = name, salt = flag\<rparr>"

definition Exec :: "Lib \<Rightarrow> 'n Logs \<Rightarrow> Outcome \<times> string list" where
  "Exec lib l =
     (case GetJob (jenkins l) (jobName l) of
        Inl err \<Rightarrow> (Returned (Some err), [])
      | Inr build \<Rightarrow>
          let r = GetLastBuild build;
              lastBuild = (case r of Inl _ \<Rightarrow> None | Inr b \<Rightarrow> Some b);
              result = result_of r;
              marker = markerText lib (marker_of result)
          in (case lastBuild of
               None \<Rightarrow> (NilDereference, [])
             | Some b \<Rightarrow>
                 let statusLine = marker @ '' '' @ jobName l @ '' ('' @ GetUrl b @ '')'' @ newline;
                     resultLine = ''Jenkins result code: '' @ result @ newline;
                     consoleOutput = GetConsoleOutput b;
                     console =
                       (if salt l
                        then map (\<lambda>stateOutput. stateOutput @ newline)
                               (getFailedSaltStates consoleOutput)
                        else [Printf0 lib consoleOutput]);
                     pointer = GetUrl b @ ''/consoleText'' @ newline
                 in (Returned None, statusLine # resultLine # console @ [pointer])))"

section \<open>\<open>strings.Join\<close>, to say what \<open>Split\<close> returns\<close>

fun Join :: "string list \<Rightarrow> string \<Rightarrow> string" where
  "Join [] sep = []"
| "Join [a] sep = a"
| "Join (a # b # rest) sep = a @ sep @ Join (b # rest) sep"

section \<open>A server and a library for the examples\<close>

text \<open>
  What \<open>fmt.Printf\<close> writes for a format and no operand, for the formats in which each
  \<open>%\<close> is followed by \<open>%\<close>, by a letter, or by nothing: \<open>%%\<close> is a percent sign, a
  verb with no operand is \<open>%!verb(MISSING)\<close>, and a \<open>%\<close> that ends the format is
  \<open>%!(NOVERB)\<close>.
\<close>

fun fmtNoOperands :: "string \<Rightarrow> string" where
  "fmtNoOperands [] = []"
| "fmtNoOperands [c] = (if c = CHR ''%'' then ''%!(NOVERB)'' else [c])"
| "fmtNoOperands (c # d # cs) =
     (if c \<noteq> CHR ''%'' then c # fmtNoOperands (d # cs)
      else if d = CHR ''%'' then CHR ''%'' # fmtNoOperands cs
      else ''%!'' @ [d] @ ''(MISSING)'' @ fmtNoOperands cs)"

text \<open>
  The library of the examples compiles \<open>.*\<close> to the expression every string has a match
  of, rejects \<open>[\<close>, and reads any other pattern as a literal.
\<close>

definition exampleLib :: Lib where
  "exampleLib =
     \<lparr>Compile = (\<lambda>pattern.
        if pattern = ''['' then Inl ''error parsing regexp: missing closing ]''
        else if pattern = ''.*'' then Inr (\<lambda>s. True)
        else Inr (\<lambda>s. Contains s pattern)),
      Printf0 = fmtNoOperands,
      markerText = (\<lambda>m. case m of Ok \<Rightarrow> ''+'' | Failed \<Rightarrow> ''x'' | Unknown \<Rightarrow> ''?'')\<rparr>"

definition deployApi :: InnerJob where
  "deployApi = \<lparr>Name = ''deploy-api'', Url = ''http://ci/job/deploy-api/''\<rparr>"

definition deployWeb :: InnerJob where
  "deployWeb = \<lparr>Name = ''deploy-web'', Url = ''http://ci/job/deploy-web/''\<rparr>"

definition deployDb :: InnerJob where
  "deployDb = \<lparr>Name = ''deploy-db'', Url = ''http://ci/job/deploy-db/''\<rparr>"

definition testApi :: InnerJob where
  "testApi = \<lparr>Name = ''test-api'', Url = ''http://ci/job/test-api/''\<rparr>"

definition deployApiBuild :: Build where
  "deployApiBuild =
     \<lparr>GetResult = ''SUCCESS'', GetUrl = ''http://ci/job/deploy-api/7/'',
      GetConsoleOutput = ''A----------B Result: False C----------D''\<rparr>"

definition testApiBuild :: Build where
  "testApiBuild =
     \<lparr>GetResult = ''FAILURE'', GetUrl = ''http://ci/job/test-api/3/'',
      GetConsoleOutput = ''coverage: 100%''\<rparr>"

text \<open>
  The server of the examples has four jobs: \<open>deploy-api\<close> last succeeded, \<open>test-api\<close>
  last failed, \<open>deploy-web\<close> has no last build to fetch, and \<open>deploy-db\<close> cannot be
  fetched itself. Of its three nodes, \<open>agent-2\<close> cannot be polled and \<open>agent-3\<close> cannot
  be asked whether it is online. A node handle is the node's name and the online flag
  it holds, which \<open>Poll\<close> sets.
\<close>

definition exampleJenkins :: "(string \<times> bool) Jenkins" where
  "exampleJenkins =
     \<lparr>GetJob = (\<lambda>name.
        if name = ''deploy-api'' then Inr \<lparr>GetLastBuild = Inr deployApiBuild\<rparr>
        else if name = ''test-api'' then Inr \<lparr>GetLastBuild = Inr testApiBuild\<rparr>
        else if name = ''deploy-web'' then Inr \<lparr>GetLastBuild = Inl ''404''\<rparr>
        else Inl ''connection refused''),
      GetAllJobNames = Inr [deployApi, deployWeb, deployDb, testApi],
      GetAllNodes = Inr [(''agent-1'', False), (''agent-2'', False), (''agent-3'', False)],
      Poll = (\<lambda>node.
        if fst node = ''agent-2'' then (node, Inl ''poll: timeout'')
        else ((fst node, True), Inr 200)),
      IsOnline = (\<lambda>node.
        if fst node = ''agent-3'' then (node, Inl ''connection reset'')
        else (node, Inr (snd node))),
      GetName = fst\<rparr>"

section \<open>Facts about the string functions\<close>

lemma foldl_snoc_filter:
  "foldl (\<lambda>acc x. if P x then acc @ [x] else acc) a xs = a @ filter P xs"
  by (induction xs arbitrary: a) simp_all

lemma Contains_sublist: "Contains s substr \<longleftrightarrow> sublist substr s"
  unfolding Contains_def
proof (induction s)
  case Nil
  then show ?case by simp
next
  case (Cons c cs)
  then show ?case
    by (auto simp: sublist_Cons_right)
qed

text \<open>\<open>Index\<close> finds the first occurrence: there is none before it.\<close>

lemma Index_first:
  "Index s sep = Some m \<Longrightarrow> sep \<noteq> [] \<Longrightarrow> \<not> sublist sep (take m s)"
proof (induction s arbitrary: m)
  case Nil
  then show ?case by simp
next
  case (Cons c cs)
  show ?case
  proof (cases "prefix sep (c # cs)")
    case True
    with Cons.prems show ?thesis by simp
  next
    case False
    with Cons.prems obtain k where k: "Index cs sep = Some k" "m = Suc k" by auto
    have "\<not> sublist sep (take k cs)" using Cons.IH k(1) Cons.prems(2) by blast
    moreover have "\<not> prefix sep (c # take k cs)"
    proof
      assume "prefix sep (c # take k cs)"
      moreover have "prefix (c # take k cs) (c # cs)" by (simp add: take_is_prefix)
      ultimately have "prefix sep (c # cs)" by (rule prefix_order.trans)
      with False show False by contradiction
    qed
    ultimately show ?thesis using k(2) by (simp add: sublist_Cons_right)
  qed
qed

lemma Index_at:
  "Index s sep = Some m \<Longrightarrow> s = take m s @ sep @ drop (m + length sep) s"
proof (induction s arbitrary: m)
  case Nil
  then show ?case by (simp split: if_splits)
next
  case (Cons c cs)
  show ?case
  proof (cases "prefix sep (c # cs)")
    case True
    with Cons.prems have "m = 0" by simp
    moreover from True obtain r where "c # cs = sep @ r" by (auto simp: prefix_def)
    ultimately show ?thesis by simp
  next
    case False
    with Cons.prems obtain k where k: "Index cs sep = Some k" "m = Suc k" by auto
    from Cons.IH [OF k(1)] show ?thesis using k(2) by simp
  qed
qed

lemma Split_nonempty: "sep \<noteq> [] \<Longrightarrow> Split s sep \<noteq> []"
  by (subst Split.simps) (simp split: option.splits)

lemma Join_Cons: "xs \<noteq> [] \<Longrightarrow> Join (a # xs) sep = a @ sep @ Join xs sep"
  by (cases xs) simp_all

lemma Join_Split: "sep \<noteq> [] \<Longrightarrow> Join (Split s sep) sep = s"
proof (induction s sep rule: Split.induct)
  case (1 s sep)
  show ?case
  proof (cases "Index s sep")
    case None
    with "1.prems" show ?thesis by (subst Split.simps) simp
  next
    case (Some m)
    have "Join (Split s sep) sep = take m s @ sep @ Join (Split (drop (m + length sep) s) sep) sep"
      using Some "1.prems" by (subst Split.simps) (simp add: Join_Cons Split_nonempty)
    also have "\<dots> = take m s @ sep @ drop (m + length sep) s"
      using "1.IH" [OF "1.prems" Some] "1.prems" by simp
    also have "\<dots> = s" using Index_at [OF Some] by simp
    finally show ?thesis .
  qed
qed

lemma Split_segments_free:
  "sep \<noteq> [] \<Longrightarrow> seg \<in> set (Split s sep) \<Longrightarrow> \<not> sublist sep seg"
proof (induction s sep rule: Split.induct)
  case (1 s sep)
  show ?case
  proof (cases "Index s sep")
    case None
    with "1.prems" have "seg = s" by (subst (asm) Split.simps) simp
    with None show ?thesis by (simp add: Contains_def flip: Contains_sublist)
  next
    case (Some m)
    with "1.prems" have "seg = take m s \<or> seg \<in> set (Split (drop (m + length sep) s) sep)"
      by (subst (asm) Split.simps) simp
    then show ?thesis
    proof
      assume "seg = take m s"
      with Index_first [OF Some "1.prems"(1)] show ?thesis by simp
    next
      assume "seg \<in> set (Split (drop (m + length sep) s) sep)"
      with "1.IH" [OF "1.prems"(1) Some "1.prems"(1)] show ?thesis .
    qed
  qed
qed

section \<open>The salt filter keeps the failed segments\<close>

text \<open>
  C4. The salt filter cuts the console output at the ten-hyphen separator and returns,
  in order and in full, the segments that contain \<open>Result: False\<close>, and no other. The
  segments are those of the text: joined by the separator they give it back, and none
  of them contains the separator.
\<close>

theorem getFailedSaltStates_segments:
  "getFailedSaltStates output =
     filter (\<lambda>seg. sublist ''Result: False'' seg) (Split output ''----------'')
   \<and> Join (Split output ''----------'') ''----------'' = output
   \<and> (\<forall>seg \<in> set (Split output ''----------''). \<not> sublist ''----------'' seg)"
proof (intro conjI ballI)
  show "getFailedSaltStates output =
          filter (\<lambda>seg. sublist ''Result: False'' seg) (Split output ''----------'')"
    by (simp add: getFailedSaltStates_def foldl_snoc_filter Contains_sublist)
  show "Join (Split output ''----------'') ''----------'' = output"
    by (rule Join_Split) simp
  show "\<not> sublist ''----------'' seg" if "seg \<in> set (Split output ''----------'')" for seg
    using that by (rule Split_segments_free [rotated]) simp
qed

theorem getFailedSaltStates_segments_witness:
  "Split ''A----------B Result: False C----------D'' ''----------''
     = [''A'', ''B Result: False C'', ''D'']
   \<and> getFailedSaltStates ''A----------B Result: False C----------D'' = [''B Result: False C'']
   \<and> filter (\<lambda>seg. sublist ''Result: False'' seg) [''A'', ''B Result: False C'', ''D'']
       = [''B Result: False C'']
   \<and> \<not> sublist ''----------'' ''B Result: False C''"
proof -
  have cut: "Split ''A----------B Result: False C----------D'' ''----------''
               = [''A'', ''B Result: False C'', ''D'']"
    by (simp add: Split.simps)
  have kept: "getFailedSaltStates ''A----------B Result: False C----------D''
               = [''B Result: False C'']"
    by (simp add: getFailedSaltStates_def cut Contains_def)
  from getFailedSaltStates_segments [of "''A----------B Result: False C----------D''"]
  show ?thesis unfolding cut kept by simp
qed

section \<open>Facts about goroutines and the wait group\<close>

text \<open>
  A goroutine that subtracts one from the counter and appends its own writes: however
  the schedule orders a list of them, the counter falls by their number and the output
  gains their writes, in the order they ended.
\<close>

lemma mset_concat_without:
  assumes "k < length xs"
  shows "mset (concat (map out xs)) =
         mset (out (xs ! k)) + mset (concat (map out (take k xs @ drop (Suc k) xs)))"
proof -
  have "mset (concat (map out xs)) =
        mset (concat (map out (take k xs @ xs ! k # drop (Suc k) xs)))"
    using id_take_nth_drop [OF assms] by simp
  then show ?thesis by simp
qed

lemma goEach_effect:
  assumes cnt: "\<And>x s. counter (snd (f x s)) = counter s - 1"
    and out: "\<And>x s. stdout (snd (f x s)) = stdout s @ out x"
  shows "counter (goEach f xs schedule s) = counter s - int (length xs)
         \<and> (\<exists>ws. stdout (goEach f xs schedule s) = stdout s @ ws
                 \<and> mset ws = mset (concat (map out xs)))"
  using cnt out
proof (induction f xs schedule s rule: goEach.induct)
  case (1 f running schedule s)
  note cnt = "1.prems"(1) and out = "1.prems"(2)
  show ?case
  proof (cases "running = []")
    case True
    then show ?thesis by (simp add: goEach.simps)
  next
    case False
    define k where "k = (case schedule of [] \<Rightarrow> 0 | c # _ \<Rightarrow> c mod length running)"
    define rest where "rest = take k running @ drop (Suc k) running"
    define s' where "s' = snd (f (running ! k) s)"
    from False have k: "k < length running" by (simp add: k_def split: list.splits)
    have unfold: "goEach f running schedule s = goEach f rest (tl schedule) s'"
      using False by (subst goEach.simps) (simp add: k_def rest_def s'_def Let_def)
    have len: "length rest = length running - 1" using k by (simp add: rest_def)
    from "1.IH" [OF False k_def cnt out]
    obtain ws where ih: "counter (goEach f rest (tl schedule) s') = counter s' - int (length rest)"
      "stdout (goEach f rest (tl schedule) s') = stdout s' @ ws"
      "mset ws = mset (concat (map out rest))"
      unfolding rest_def s'_def by blast
    have "counter (goEach f running schedule s) = counter s - int (length running)"
      using ih(1) k by (simp add: unfold len s'_def cnt)
    moreover have "stdout (goEach f running schedule s) = stdout s @ (out (running ! k) @ ws)"
      using ih(2) by (simp add: unfold s'_def out)
    moreover have "mset (out (running ! k) @ ws) = mset (concat (map out running))"
      using ih(3) mset_concat_without [OF k, of out] by (simp add: rest_def)
    ultimately show ?thesis by blast
  qed
qed

text \<open>
  With no schedule the goroutines end in list order, and every order in which they can
  end is the run of some schedule: what holds under every schedule holds for every
  interleaving of the reporters.
\<close>

lemma goEach_in_order: "goEach f ys [] s = foldl (\<lambda>s x. snd (f x s)) s ys"
proof (induction ys arbitrary: s)
  case Nil
  show ?case by (simp add: goEach.simps)
next
  case (Cons y ys)
  have "goEach f (y # ys) [] s = goEach f ys [] (snd (f y s))"
    by (subst goEach.simps) simp
  with Cons.IH show ?case by simp
qed

lemma goEach_any_order:
  assumes "mset ys = mset xs"
  shows "\<exists>schedule. goEach f xs schedule s = foldl (\<lambda>s x. snd (f x s)) s ys"
  using assms
proof (induction ys arbitrary: xs s)
  case Nil
  then show ?case by (simp add: goEach.simps)
next
  case (Cons y ys)
  from Cons.prems have "y \<in> set xs" by (metis list.set_intros(1) mset_eq_setD)
  then obtain k where k: "k < length xs" "xs ! k = y" by (auto simp: in_set_conv_nth)
  define rest where "rest = take k xs @ drop (Suc k) xs"
  have "mset xs = mset (take k xs @ y # drop (Suc k) xs)"
    using id_take_nth_drop [OF k(1)] k(2) by simp
  then have "mset xs = add_mset y (mset rest)" by (simp add: rest_def)
  with Cons.prems have "mset ys = mset rest" by simp
  from Cons.IH [OF this, of "snd (f y s)"]
  obtain schedule where run:
    "goEach f rest schedule (snd (f y s)) = foldl (\<lambda>s x. snd (f x s)) (snd (f y s)) ys"
    by blast
  have "xs \<noteq> []" using k(1) by auto
  then have "goEach f xs (k # schedule) s = goEach f rest schedule (snd (f y s))"
    using k by (subst goEach.simps) (simp add: rest_def)
  with run show ?case by (intro exI [of _ "k # schedule"]) simp
qed

lemma goEach_Nil: "goEach f [] schedule s = s"
  by (simp add: goEach.simps)




lemma printNodeStatus_counter: "counter (snd (printNodeStatus jk node s)) = counter s - 1"
  by (simp add: printNodeStatus_def Done_def print_def split: sum.splits prod.splits)

lemma printNodeStatus_stdout:
  "stdout (snd (printNodeStatus jk node s)) = stdout s @ stdout (snd (printNodeStatus jk node start))"
  by (simp add: printNodeStatus_def Done_def print_def start_def split: sum.splits prod.splits)


lemma Wait_all_done:
  assumes cnt: "\<And>x s. counter (snd (f x s)) = counter s - 1"
    and out: "\<And>x s. stdout (snd (f x s)) = stdout s @ out x"
  shows "\<exists>s. Wait (goEach f xs schedule (Add (length xs) start)) = Some s
             \<and> mset (stdout s) = mset (concat (map out xs))"
proof -
  from goEach_effect [of f out xs schedule "Add (length xs) start", OF cnt out]
  obtain ws where "counter (goEach f xs schedule (Add (length xs) start)) = 0"
    and "stdout (goEach f xs schedule (Add (length xs) start)) = ws"
    and "mset ws = mset (concat (map out xs))"
    by (auto simp: Add_def start_def)
  then show ?thesis by (simp add: Wait_def)
qed


section \<open>Evaluating the examples\<close>

lemmas example_defs = exampleLib_def exampleJenkins_def deployApi_def deployWeb_def
  deployDb_def testApi_def deployApiBuild_def testApiBuild_def

lemmas goroutine_defs = goEach.simps Wait_def Add_def start_def Done_def print_def

lemma example_all_jobs:
  "findMatchingJobs exampleLib exampleJenkins ''.*'' = Inr [deployApi, deployWeb, deployDb, testApi]"
  by (simp add: findMatchingJobs_def MatchString_def example_defs)

lemma example_deploy_jobs:
  "findMatchingJobs exampleLib exampleJenkins ''deploy'' = Inr [deployApi, deployWeb, deployDb]"
  by (simp add: findMatchingJobs_def MatchString_def Contains_def example_defs)

lemma example_nodes:
  "GetAllNodes exampleJenkins = Inr [(''agent-1'', False), (''agent-2'', False), (''agent-3'', False)]"
  by (simp add: exampleJenkins_def)

section \<open>The fan-out commands\<close>




section \<open>The job matcher\<close>

lemma matching_loop:
  "foldl (\<lambda>matchingJobs job.
            case MatchString lib regex (Name job) of
              (match, _) \<Rightarrow> if match then matchingJobs @ [job] else matchingJobs) a jobs
   = a @ filter (\<lambda>job. fst (MatchString lib regex (Name job))) jobs"
  by (induction jobs arbitrary: a) (simp_all split: prod.splits)

lemma MatchString_fst:
  "fst (MatchString lib regex s) = (case Compile lib regex of Inl _ \<Rightarrow> False | Inr re \<Rightarrow> re s)"
  by (simp add: MatchString_def split: sum.splits)

lemma findMatchingJobs_filter:
  "GetAllJobNames jk = Inr jobs \<Longrightarrow>
   findMatchingJobs lib jk regex =
     Inr (filter (\<lambda>job. fst (MatchString lib regex (Name job))) jobs)"
  by (simp add: findMatchingJobs_def matching_loop)

lemma openExec_jobs:
  assumes "findMatchingJobs lib jk regex = Inr jobs"
  shows "openExec lib jk regex =
           (if length jobs > 3 then (Fatal tooManyJobs, []) else (Returned None, map Url jobs))"
proof -
  have "foldl (\<lambda>opened job. opened @ [Url job]) a jobs = a @ map Url jobs" for a
    by (induction jobs arbitrary: a) simp_all
  with assms show ?thesis by (simp add: openExec_def)
qed

text \<open>
  C5. For the jobs \<open>J\<close> the server lists and a pattern \<open>P\<close>, the matcher returns the jobs
  of \<open>J\<close> whose name contains a match of \<open>P\<close> (the search of \<open>regexp.MatchString\<close>, which
  is not anchored), in the order of \<open>J\<close>. With \<open>.*\<close>, of which every string has a
  match, it returns \<open>J\<close>.
\<close>

theorem findMatchingJobs_subsequence:
  assumes "GetAllJobNames jk = Inr jobs"
  shows "findMatchingJobs lib jk regex =
           Inr (filter (\<lambda>job. case Compile lib regex of
                                 Inl _ \<Rightarrow> False
                               | Inr re \<Rightarrow> re (Name job)) jobs)
         \<and> (\<exists>matching. findMatchingJobs lib jk regex = Inr matching \<and> subseq matching jobs)
         \<and> (Compile lib ''.*'' = Inr (\<lambda>s. True) \<longrightarrow> findMatchingJobs lib jk ''.*'' = Inr jobs)"
  using assms by (simp add: findMatchingJobs_filter MatchString_fst)

theorem findMatchingJobs_subsequence_witness:
  "GetAllJobNames exampleJenkins = Inr [deployApi, deployWeb, deployDb, testApi]
   \<and> Compile exampleLib ''.*'' = Inr (\<lambda>s. True)
   \<and> findMatchingJobs exampleLib exampleJenkins ''.*''
       = Inr [deployApi, deployWeb, deployDb, testApi]
   \<and> findMatchingJobs exampleLib exampleJenkins ''api'' = Inr [deployApi, testApi]"
proof -
  have listed: "GetAllJobNames exampleJenkins = Inr [deployApi, deployWeb, deployDb, testApi]"
    by (simp add: exampleJenkins_def)
  have star: "Compile exampleLib ''.*'' = Inr (\<lambda>s. True)"
    by (simp add: exampleLib_def)
  have api: "filter (\<lambda>job. case Compile exampleLib ''api'' of
                              Inl _ \<Rightarrow> False
                            | Inr re \<Rightarrow> re (Name job))
               [deployApi, deployWeb, deployDb, testApi] = [deployApi, testApi]"
    by (simp add: Contains_def example_defs)
  from findMatchingJobs_subsequence [OF listed, of exampleLib "''.*''"]
    findMatchingJobs_subsequence [OF listed, of exampleLib "''api''"] listed star
  show ?thesis unfolding api by simp
qed

text \<open>
  C8. A pattern that does not compile matches no job: each match attempt reports no
  match and the compile error, the matcher drops the error and returns the empty list
  and no error, and the commands over it go on: \<open>status\<close> returns \<open>nil\<close> with nothing
  written, \<open>open\<close> returns \<open>nil\<close> with nothing opened.
\<close>

theorem malformed_pattern_matches_nothing:
  assumes "Compile lib regex = Inl e" and "GetAllJobNames jk = Inr jobs"
  shows "findMatchingJobs lib jk regex = Inr []
    \<and> (\<forall>job \<in> set jobs. MatchString lib regex (Name job) = (False, Some e))
    \<and> statusExec lib jk regex schedule = Some (Returned None, start)
    \<and> openExec lib jk regex = (Returned None, [])"
proof -
  have none: "findMatchingJobs lib jk regex = Inr []"
    using assms by (simp add: findMatchingJobs_filter MatchString_fst)
  moreover have "\<forall>job \<in> set jobs. MatchString lib regex (Name job) = (False, Some e)"
    using assms by (simp add: MatchString_def)
  moreover have "statusExec lib jk regex schedule = Some (Returned None, start)"
    by (simp add: statusExec_def none goEach_Nil Add_def Wait_def start_def)
  moreover have "openExec lib jk regex = (Returned None, [])"
    by (simp add: openExec_jobs [OF none])
  ultimately show ?thesis by blast
qed

theorem malformed_pattern_matches_nothing_witness:
  "Compile exampleLib ''['' = Inl ''error parsing regexp: missing closing ]''
   \<and> GetAllJobNames exampleJenkins = Inr [deployApi, deployWeb, deployDb, testApi]
   \<and> findMatchingJobs exampleLib exampleJenkins ''['' = Inr []
   \<and> MatchString exampleLib ''['' (Name deployApi)
       = (False, Some ''error parsing regexp: missing closing ]'')
   \<and> statusExec exampleLib exampleJenkins ''['' [1] = Some (Returned None, start)
   \<and> openExec exampleLib exampleJenkins ''['' = (Returned None, [])"
proof -
  have bad: "Compile exampleLib ''['' = Inl ''error parsing regexp: missing closing ]''"
    by (simp add: exampleLib_def)
  have listed: "GetAllJobNames exampleJenkins = Inr [deployApi, deployWeb, deployDb, testApi]"
    by (simp add: exampleJenkins_def)
  from malformed_pattern_matches_nothing [OF bad listed, of "[1]"] bad listed
  show ?thesis by simp
qed

text \<open>
  C7. \<open>open\<close> over the matched jobs: with four or more it ends in \<open>log.Fatalf\<close> and
  opens nothing; with three or fewer it opens the URL of each, one call after the
  other in matched order, and returns \<open>nil\<close>.
\<close>

theorem openExec_at_most_three:
  assumes "findMatchingJobs lib jk regex = Inr jobs"
  shows "(4 \<le> length jobs \<longrightarrow> openExec lib jk regex = (Fatal tooManyJobs, []))
       \<and> (length jobs \<le> 3 \<longrightarrow> openExec lib jk regex = (Returned None, map Url jobs))"
  by (simp add: openExec_jobs [OF assms])

theorem openExec_at_most_three_witness:
  "findMatchingJobs exampleLib exampleJenkins ''.*'' = Inr [deployApi, deployWeb, deployDb, testApi]
   \<and> openExec exampleLib exampleJenkins ''.*'' = (Fatal tooManyJobs, [])
   \<and> findMatchingJobs exampleLib exampleJenkins ''deploy'' = Inr [deployApi, deployWeb, deployDb]
   \<and> openExec exampleLib exampleJenkins ''deploy''
       = (Returned None,
          [''http://ci/job/deploy-api/'', ''http://ci/job/deploy-web/'',
           ''http://ci/job/deploy-db/''])"
proof -
  have urls: "map Url [deployApi, deployWeb, deployDb]
              = [''http://ci/job/deploy-api/'', ''http://ci/job/deploy-web/'',
                 ''http://ci/job/deploy-db/'']"
    by (simp add: example_defs)
  from openExec_at_most_three [OF example_all_jobs] openExec_at_most_three [OF example_deploy_jobs]
    example_all_jobs example_deploy_jobs
  show ?thesis unfolding urls by simp
qed

section \<open>The marker of a status line\<close>

text \<open>
  C6. The marker of a build result: \<open>SUCCESS\<close> gives the Ok marker, \<open>FAILURE\<close> the
  Failed marker, every other string the Unknown marker, and so does the string
  \<open>UNKNOWN (error)\<close> that stands for the result when the last build cannot be
  fetched. It is the marker that starts the line \<open>printStatus\<close> writes, and the one
  that starts the first line of \<open>logsExec\<close>.
\<close>

theorem marker_of_result:
  "marker_of ''SUCCESS'' = Ok
   \<and> marker_of ''FAILURE'' = Failed
   \<and> (result \<noteq> ''SUCCESS'' \<and> result \<noteq> ''FAILURE'' \<longrightarrow> marker_of result = Unknown)
   \<and> result_of (Inl err) = ''UNKNOWN ('' @ err @ '')''
   \<and> marker_of (result_of (Inl err)) = Unknown
   \<and> (GetJob jk (Name job) = Inr build \<longrightarrow>
        stdout (snd (printStatus lib jk job s)) =
          stdout s @ [markerText lib (marker_of (result_of (GetLastBuild build)))
                        @ '' '' @ Name job @ '' ('' @ Url job @ '')'' @ newline])
   \<and> (GetJob jk name = Inr build \<and> GetLastBuild build = Inr b \<longrightarrow>
        hd (snd (logsExec lib jk name flag)) =
          markerText lib (marker_of (GetResult b))
            @ '' '' @ name @ '' ('' @ GetUrl b @ '')'' @ newline)"
  by (simp add: marker_of_def result_of_def printStatus_def print_def Done_def logsExec_def Let_def)

theorem marker_of_result_witness:
  "marker_of ''ABORTED'' = Unknown
   \<and> marker_of (result_of (Inl ''404'')) = Unknown
   \<and> GetJob exampleJenkins (Name deployWeb) = Inr \<lparr>GetLastBuild = Inl ''404''\<rparr>
   \<and> stdout (snd (printStatus exampleLib exampleJenkins deployWeb start))
       = [''? deploy-web (http://ci/job/deploy-web/)'' @ newline]
   \<and> GetJob exampleJenkins ''test-api'' = Inr \<lparr>GetLastBuild = Inr testApiBuild\<rparr>
   \<and> hd (snd (logsExec exampleLib exampleJenkins ''test-api'' True))
       = ''x test-api (http://ci/job/test-api/3/)'' @ newline"
proof -
  have web: "GetJob exampleJenkins (Name deployWeb) = Inr \<lparr>GetLastBuild = Inl ''404''\<rparr>"
    by (simp add: example_defs)
  have api: "GetJob exampleJenkins ''test-api'' = Inr \<lparr>GetLastBuild = Inr testApiBuild\<rparr>"
    by (simp add: example_defs)
  from marker_of_result [of "''ABORTED''" "''404''" exampleJenkins deployWeb
      "\<lparr>GetLastBuild = Inl ''404''\<rparr>" exampleLib start]
    marker_of_result [of "''ABORTED''" "''404''" exampleJenkins _ "\<lparr>GetLastBuild = Inr testApiBuild\<rparr>"
      exampleLib _ "''test-api''" testApiBuild True]
    web api
  show ?thesis
    by (simp add: start_def exampleLib_def deployWeb_def testApiBuild_def)
qed

section \<open>\<open>logs\<close>\<close>

lemma Exec_logsExec: "Exec lib l = logsExec lib (jenkins l) (jobName l) (salt l)"
  by (simp add: Exec_def logsExec_def)

text \<open>
  C3, as the code has it. \<open>logs\<close> returns an error exactly when the job cannot be
  resolved: it returns that error and has written nothing. A last build that cannot be
  resolved is not returned as an error: the code turns it into the result string
  \<open>UNKNOWN (error)\<close> and goes on.
\<close>

theorem logsExec_returns_job_error:
  "(logsExec lib jk name flag = (Returned (Some e), out)) = (GetJob jk name = Inl e \<and> out = [])
   \<and> (Exec lib (NewLogs jk name flag) = (Returned (Some e), out))
       = (GetJob jk name = Inl e \<and> out = [])"
  unfolding Exec_logsExec
  by (auto simp: logsExec_def NewLogs_def Let_def split: sum.splits option.splits)

theorem logsExec_returns_job_error_witness:
  "GetJob exampleJenkins ''deploy-db'' = Inl ''connection refused''
   \<and> logsExec exampleLib exampleJenkins ''deploy-db'' False
       = (Returned (Some ''connection refused''), [])"
proof -
  have db: "GetJob exampleJenkins ''deploy-db'' = Inl ''connection refused''"
    by (simp add: example_defs)
  from logsExec_returns_job_error [of exampleLib exampleJenkins "''deploy-db''" False
      "''connection refused''" "[]"] db
  show ?thesis by simp
qed

theorem logsExec_returns_job_error_counterexample:
  "GetJob exampleJenkins ''deploy-web'' = Inr \<lparr>GetLastBuild = Inl ''404''\<rparr>
   \<and> logsExec exampleLib exampleJenkins ''deploy-web'' False = (NilDereference, [])
   \<and> logsExec exampleLib exampleJenkins ''deploy-web'' False \<noteq> (Returned (Some ''404''), [])"
  by (simp add: logsExec_def Let_def example_defs)

text \<open>
  C10. When the job is resolved and its last build is not, \<open>lastBuild\<close> is nil, and
  \<open>logsExec\<close> (and \<open>Logs.Exec\<close>) still calls \<open>lastBuild.GetUrl()\<close> after the result
  string \<open>UNKNOWN (error)\<close> is made: no check of the error or of the pointer stands
  before it, so the command ends in a nil dereference, with nothing written.
\<close>

theorem logsExec_nil_lastBuild:
  assumes "GetJob jk name = Inr build" and "GetLastBuild build = Inl e"
  shows "logsExec lib jk name flag = (NilDereference, [])
       \<and> Exec lib (NewLogs jk name flag) = (NilDereference, [])
       \<and> result_of (GetLastBuild build) = ''UNKNOWN ('' @ e @ '')''"
  using assms by (simp add: logsExec_def Exec_def NewLogs_def Let_def result_of_def)

theorem logsExec_nil_lastBuild_witness:
  "GetJob exampleJenkins ''deploy-web'' = Inr \<lparr>GetLastBuild = Inl ''404''\<rparr>
   \<and> logsExec exampleLib exampleJenkins ''deploy-web'' True = (NilDereference, [])
   \<and> Exec exampleLib (NewLogs exampleJenkins ''deploy-web'' True) = (NilDereference, [])"
proof -
  have web: "GetJob exampleJenkins ''deploy-web'' = Inr \<lparr>GetLastBuild = Inl ''404''\<rparr>"
    by (simp add: example_defs)
  from logsExec_nil_lastBuild [OF web, of "''404''" exampleLib True] web
  show ?thesis by simp
qed

text \<open>
  C2, as the code has it. With the salt flag off, \<open>logs\<close> writes the status line, the
  result code, then the console output passed to \<open>fmt.Printf\<close> as the format, and the
  pointer to the full log. What is written for the console output is what \<open>Printf\<close>
  makes of it as a format with no operand, not the text itself.
\<close>

theorem logsExec_console_is_format:
  assumes "GetJob jk name = Inr build" and "GetLastBuild build = Inr b"
  shows "logsExec lib jk name False =
           (Returned None,
            [markerText lib (marker_of (GetResult b))
               @ '' '' @ name @ '' ('' @ GetUrl b @ '')'' @ newline,
             ''Jenkins result code: '' @ GetResult b @ newline,
             Printf0 lib (GetConsoleOutput b),
             GetUrl b @ ''/consoleText'' @ newline])
       \<and> Exec lib (NewLogs jk name False) = logsExec lib jk name False"
  using assms by (simp add: Exec_logsExec NewLogs_def logsExec_def Let_def result_of_def)

theorem logsExec_console_is_format_witness:
  "GetJob exampleJenkins ''test-api'' = Inr \<lparr>GetLastBuild = Inr testApiBuild\<rparr>
   \<and> GetConsoleOutput testApiBuild = ''coverage: 100%''
   \<and> logsExec exampleLib exampleJenkins ''test-api'' False =
       (Returned None,
        [''x test-api (http://ci/job/test-api/3/)'' @ newline,
         ''Jenkins result code: FAILURE'' @ newline,
         ''coverage: 100%!(NOVERB)'',
         ''http://ci/job/test-api/3//consoleText'' @ newline])"
proof -
  have api: "GetJob exampleJenkins ''test-api'' = Inr \<lparr>GetLastBuild = Inr testApiBuild\<rparr>"
    by (simp add: example_defs)
  have last: "GetLastBuild \<lparr>GetLastBuild = Inr testApiBuild\<rparr> = Inr testApiBuild"
    by simp
  from logsExec_console_is_format [OF api last, of exampleLib] api
  show ?thesis
    by (simp add: exampleLib_def testApiBuild_def marker_of_def)
qed

section \<open>\<open>nodes\<close>\<close>

text \<open>
  C9, as the code has it. \<open>printNodeStatus\<close> polls the node and asks the polled handle
  whether it is online. It returns the error of that query, if any, and then writes
  nothing; otherwise it writes the node's line. The \<open>nodes\<close> command returns \<open>nil\<close>
  all the same, and its output is, up to order, the lines of the nodes whose query
  succeeded, each as the node's reporter writes it on its own.
\<close>

theorem printNodeStatus_polls_first:
  "fst (printNodeStatus jk node s) =
     (case snd (IsOnline jk (fst (Poll jk node))) of Inl err \<Rightarrow> Some err | Inr _ \<Rightarrow> None)
   \<and> stdout (snd (printNodeStatus jk node s)) =
       stdout s @
       (case IsOnline jk (fst (Poll jk node)) of
          (node', Inl err) \<Rightarrow> []
        | (node', Inr online) \<Rightarrow>
            [GetName jk node' @ (if online then '': Online'' else '': Offline'') @ newline])
   \<and> (GetAllNodes jk = Inr ns \<longrightarrow>
        (\<exists>s. nodes jk schedule = Some (Returned None, s)
            \<and> mset (stdout s) =
                mset (concat (map (\<lambda>node. stdout (snd (printNodeStatus jk node start)))
                  (filter (\<lambda>node. \<not> isl (snd (IsOnline jk (fst (Poll jk node))))) ns)))))"
proof (intro conjI impI)
  show "fst (printNodeStatus jk node s) =
     (case snd (IsOnline jk (fst (Poll jk node))) of Inl err \<Rightarrow> Some err | Inr _ \<Rightarrow> None)"
    by (simp add: printNodeStatus_def split: prod.splits sum.splits)
  show "stdout (snd (printNodeStatus jk node s)) =
       stdout s @
       (case IsOnline jk (fst (Poll jk node)) of
          (node', Inl err) \<Rightarrow> []
        | (node', Inr online) \<Rightarrow>
            [GetName jk node' @ (if online then '': Online'' else '': Offline'') @ newline])"
    by (simp add: printNodeStatus_def Done_def print_def split: prod.splits sum.splits)
next
  assume ns: "GetAllNodes jk = Inr ns"
  have silent: "concat (map (\<lambda>node. stdout (snd (printNodeStatus jk node start))) xs)
     = concat (map (\<lambda>node. stdout (snd (printNodeStatus jk node start)))
         (filter (\<lambda>node. \<not> isl (snd (IsOnline jk (fst (Poll jk node))))) xs))" for xs
    by (induction xs)
       (simp_all add: printNodeStatus_def Done_def print_def start_def
          split: prod.splits sum.splits)
  from Wait_all_done [of "printNodeStatus jk", OF printNodeStatus_counter printNodeStatus_stdout]
  obtain s where "Wait (goEach (printNodeStatus jk) ns schedule (Add (length ns) start)) = Some s"
    and "mset (stdout s) = mset (concat (map (\<lambda>node. stdout (snd (printNodeStatus jk node start))) ns))"
    by blast
  then show "\<exists>s. nodes jk schedule = Some (Returned None, s)
            \<and> mset (stdout s) =
                mset (concat (map (\<lambda>node. stdout (snd (printNodeStatus jk node start)))
                  (filter (\<lambda>node. \<not> isl (snd (IsOnline jk (fst (Poll jk node))))) ns)))"
    using silent [of ns] by (simp add: nodes_def ns)
qed

theorem printNodeStatus_polls_first_witness:
  "GetAllNodes exampleJenkins = Inr [(''agent-1'', False), (''agent-2'', False), (''agent-3'', False)]
   \<and> printNodeStatus exampleJenkins (''agent-1'', False) (Add 1 start)
       = (None, \<lparr>counter = 0, stdout = [''agent-1: Online'' @ newline]\<rparr>)
   \<and> (\<exists>s. nodes exampleJenkins [2] = Some (Returned None, s)
          \<and> mset (stdout s) = {#''agent-1: Online'' @ newline, ''agent-2: Offline'' @ newline#})"
proof -
  have one: "printNodeStatus exampleJenkins (''agent-1'', False) (Add 1 start)
       = (None, \<lparr>counter = 0, stdout = [''agent-1: Online'' @ newline]\<rparr>)"
    by (simp add: printNodeStatus_def goroutine_defs example_defs)
  have lines: "concat (map (\<lambda>node. stdout (snd (printNodeStatus exampleJenkins node start)))
       (filter (\<lambda>node. \<not> isl (snd (IsOnline exampleJenkins (fst (Poll exampleJenkins node)))))
          [(''agent-1'', False), (''agent-2'', False), (''agent-3'', False)]))
     = [''agent-1: Online'' @ newline, ''agent-2: Offline'' @ newline]"
    by (simp add: printNodeStatus_def goroutine_defs example_defs)
  from printNodeStatus_polls_first [of exampleJenkins _ _
      "[(''agent-1'', False), (''agent-2'', False), (''agent-3'', False)]" "[2]"] example_nodes one
  show ?thesis unfolding lines by simp
qed

theorem printNodeStatus_polls_first_counterexample:
  "Poll exampleJenkins (''agent-2'', False) = ((''agent-2'', False), Inl ''poll: timeout'')
   \<and> printNodeStatus exampleJenkins (''agent-2'', False) (Add 1 start)
       = (None, \<lparr>counter = 0, stdout = [''agent-2: Offline'' @ newline]\<rparr>)
   \<and> IsOnline exampleJenkins (fst (Poll exampleJenkins (''agent-3'', False)))
       = ((''agent-3'', True), Inl ''connection reset'')
   \<and> nodes exampleJenkins []
       = Some (Returned None,
               \<lparr>counter = 0,
                stdout = [''agent-1: Online'' @ newline, ''agent-2: Offline'' @ newline]\<rparr>)"
  by (simp add: nodes_def printNodeStatus_def goroutine_defs example_defs)

end
